theory Spec2Isabelle
  imports Main "HOL-Library.Word"
begin

section \<open>Machine integers, the random source and the GMP primitives\<close>

text \<open>
  The program is the single function \<^verbatim>\<open>main\<close> of \<^verbatim>\<open>fermat.c\<close>. Its variables of type
  \<^verbatim>\<open>unsigned int\<close> (\<^verbatim>\<open>p\<close>, \<^verbatim>\<open>a1\<close>, \<^verbatim>\<open>olda1\<close>, \<^verbatim>\<open>cmp1\<close>) are 32-bit words. Its variables of
  type \<^verbatim>\<open>int\<close> (\<^verbatim>\<open>max\<close>, \<^verbatim>\<open>trial\<close>, \<^verbatim>\<open>composite_witness\<close>, \<^verbatim>\<open>fermat_liar\<close>) are integers; the
  only arithmetic on them is \<^verbatim>\<open>++trial\<close>, which stays within 0..20, and every conversion
  between the two kinds is written out: \<open>sint\<close> reads an \<^verbatim>\<open>unsigned int\<close> as an \<^verbatim>\<open>int\<close>
  (lines 137 and 145, and \<^verbatim>\<open>%d\<close> applied to \<^verbatim>\<open>p\<close>), \<open>word_of_int\<close> turns an \<^verbatim>\<open>int\<close> into an
  \<^verbatim>\<open>unsigned int\<close> (lines 73, 104 and 126).
\<close>

type_synonym uint = "32 word"

text \<open>
  The \<^verbatim>\<open>mpz_t\<close> variables hold unbounded integers. The GMP functions the program calls
  are library code; each is modelled by the value its manual says it stores in its first
  argument (\<^verbatim>\<open>mpz_init\<close>: 0; \<^verbatim>\<open>mpz_set_ui\<close>: the value of the machine integer;
  \<^verbatim>\<open>mpz_pow_ui\<close>: base to the power exp; \<^verbatim>\<open>mpz_sub\<close>: the difference; \<^verbatim>\<open>mpz_mod_ui\<close>: the
  non-negative remainder) or returns (\<^verbatim>\<open>mpz_cmp_ui\<close>: positive, zero or negative as the
  first operand is greater than, equal to or less than the second; the model returns 1, 0
  and -1, and the program only tests the result against 0).
  The divisors of lines 104 and 122 are \<open>p - 2\<close> and \<open>p\<close>; the scan starts at \<open>p = 3\<close> and counts
  upwards, so neither is ever 0, and the statements below are about candidates \<open>p \<ge> 3\<close>.
\<close>

definition mpz_init :: int where
  "mpz_init = 0"

definition mpz_set_ui :: "uint \<Rightarrow> int" where
  "mpz_set_ui v = uint v"

definition mpz_pow_ui :: "int \<Rightarrow> uint \<Rightarrow> int" where
  "mpz_pow_ui b ex = b ^ unat ex"

definition mpz_sub :: "int \<Rightarrow> int \<Rightarrow> int" where
  "mpz_sub x y = x - y"

definition mpz_mod_ui :: "int \<Rightarrow> uint \<Rightarrow> int" where
  "mpz_mod_ui n d = n mod uint d"

definition mpz_cmp_ui :: "int \<Rightarrow> uint \<Rightarrow> int" where
  "mpz_cmp_ui x y = (if uint y < x then 1 else if x = uint y then 0 else - 1)"

text \<open>
  The state of \<^verbatim>\<open>main\<close> that outlives one candidate: the three big-number variables
  \<^verbatim>\<open>a\<close>, \<^verbatim>\<open>e\<close>, \<^verbatim>\<open>r1\<close> (lines 60-62), the number of calls made to \<^verbatim>\<open>rand\<close> so far, and
  the text written to standard output.
\<close>

record state =
  mpz_a :: int
  mpz_e :: int
  mpz_r1 :: int
  rand_calls :: nat
  stdout :: string

text \<open>
  \<^verbatim>\<open>srand(time(NULL))\<close> fixes the sequence of values that the calls of \<^verbatim>\<open>rand\<close> return;
  the sequence is a parameter of the model. The \<open>n\<close>-th call returns its \<open>n\<close>-th element.
\<close>

type_synonym rand_source = "nat \<Rightarrow> int"

definition rand :: "rand_source \<Rightarrow> state \<Rightarrow> int \<times> state" where
  "rand rnd s = (rnd (rand_calls s), s\<lparr>rand_calls := Suc (rand_calls s)\<rparr>)"

definition printf :: "string \<Rightarrow> state \<Rightarrow> state" where
  "printf txt s = s\<lparr>stdout := stdout s @ txt\<rparr>"

text \<open>The conversion \<^verbatim>\<open>%d\<close>: decimal digits, with a minus sign for a negative value.\<close>

definition digit_char :: "nat \<Rightarrow> char" where
  "digit_char d = ''0123456789'' ! d"

fun show_nat :: "nat \<Rightarrow> string" where
  "show_nat n = (if n < 10 then [digit_char n] else show_nat (n div 10) @ [digit_char (n mod 10)])"

declare show_nat.simps [simp del]

definition show_int :: "int \<Rightarrow> string" where
  "show_int i = (if i < 0 then CHR ''-'' # show_nat (nat (- i)) else show_nat (nat i))"

section \<open>One trial\<close>

text \<open>The variables declared in the body of the \<^verbatim>\<open>for\<close> loop (lines 78-92).\<close>

record locals =
  trial :: int
  composite_witness :: int
  fermat_liar :: int
  a1 :: uint

definition init_locals :: locals where
  "init_locals = \<lparr>trial = 0, composite_witness = 0, fermat_liar = 0, a1 = 0\<rparr>"

text \<open>Line 104: \<^verbatim>\<open>rand() % (p - 2) + 2\<close>, computed in \<^verbatim>\<open>unsigned int\<close>.\<close>

definition sample :: "uint \<Rightarrow> int \<Rightarrow> uint" where
  "sample p r = word_of_int r mod (p - 2) + 2"

text \<open>
  Lines 108-126: the congruence check on the shared big-number variables. It returns
  \<^verbatim>\<open>cmp1\<close> and the state with \<^verbatim>\<open>a\<close>, \<^verbatim>\<open>e\<close> and \<^verbatim>\<open>r1\<close> updated.
\<close>

definition congruence_check :: "uint \<Rightarrow> uint \<Rightarrow> state \<Rightarrow> uint \<times> state" where
  "congruence_check p w s0 =
     (let s1 = s0\<lparr>mpz_a := mpz_set_ui w\<rparr>;
          s2 = s1\<lparr>mpz_e := mpz_pow_ui (mpz_a s1) p\<rparr>;
          s3 = s2\<lparr>mpz_e := mpz_sub (mpz_e s2) (mpz_a s2)\<rparr>;
          s4 = s3\<lparr>mpz_r1 := mpz_mod_ui (mpz_e s3) p\<rparr>;
          cmp1 = word_of_int (mpz_cmp_ui (mpz_r1 s4) 0)
      in (cmp1, s4))"

text \<open>Lines 99-147: the body of the \<^verbatim>\<open>while\<close> loop.\<close>

definition trial_body :: "rand_source \<Rightarrow> uint \<Rightarrow> locals \<times> state \<Rightarrow> locals \<times> state" where
  "trial_body rnd p ls =
     (let (l0, s0) = ls;
          olda1 = a1 l0;
          (r, s1) = rand rnd s0;
          l1 = l0\<lparr>a1 := sample p r\<rparr>;
          (cmp1, s2) = congruence_check p (a1 l1) s1;
          l2 = (if cmp1 \<noteq> 0
                then l1\<lparr>composite_witness := sint (a1 l1), fermat_liar := sint olda1\<rparr>
                else l1);
          l3 = l2\<lparr>trial := trial l2 + 1\<rparr>
      in (l3, s2))"

text \<open>Lines 94-148: the \<^verbatim>\<open>while\<close> loop.\<close>

function trial_loop :: "rand_source \<Rightarrow> uint \<Rightarrow> locals \<times> state \<Rightarrow> locals \<times> state" where
  "trial_loop rnd p (l, s) =
     (if trial l < 20 \<and> composite_witness l = 0
      then trial_loop rnd p (trial_body rnd p (l, s))
      else (l, s))"
  by pat_completeness auto
termination
proof (relation "measure (\<lambda>(rnd, p, l, s). nat (20 - trial l))")
  show "wf (measure (\<lambda>(rnd, p, l, s). nat (20 - trial l)))"
    by simp
next
  fix rnd :: rand_source and p :: uint and l :: locals and s :: state
  assume "trial l < 20 \<and> composite_witness l = 0"
  moreover have "trial (fst (trial_body rnd p (l, s))) = trial l + 1"
    by (simp add: trial_body_def Let_def split: prod.split)
  ultimately show "((rnd, p, trial_body rnd p (l, s)), (rnd, p, l, s))
      \<in> measure (\<lambda>(rnd, p, l, s). nat (20 - trial l))"
    by (cases "trial_body rnd p (l, s)") simp
qed

declare trial_loop.simps [simp del]

section \<open>Reporting and the scan\<close>

text \<open>Lines 150-164: the line printed for a candidate.\<close>

definition report :: "uint \<Rightarrow> locals \<Rightarrow> state \<Rightarrow> state" where
  "report p l s =
     (if composite_witness l = 0
      then printf (show_int (sint p) @ '' is a probable prime\<newline>'') s
      else
        (let s1 = printf (show_int (sint p) @ '' is composite - ''
                     @ show_int (composite_witness l) @ '' is a composite witness'') s;
             s2 = (if 0 < fermat_liar l
                   then printf ('' - '' @ show_int (fermat_liar l)
                          @ '' is a fermat liar for '' @ show_int (sint p)) s1
                   else s1)
         in printf ''\<newline>'' s2))"

text \<open>Lines 74-165: the body of the \<^verbatim>\<open>for\<close> loop.\<close>

definition candidate :: "rand_source \<Rightarrow> uint \<Rightarrow> state \<Rightarrow> state" where
  "candidate rnd p s = (let (l, s') = trial_loop rnd p (init_locals, s) in report p l s')"

text \<open>Line 73: the \<^verbatim>\<open>for\<close> loop, entered at \<open>p\<close>; \<open>maxw\<close> is \<^verbatim>\<open>max\<close> converted to \<^verbatim>\<open>unsigned int\<close>.\<close>

function scan :: "rand_source \<Rightarrow> uint \<Rightarrow> uint \<Rightarrow> state \<Rightarrow> state" where
  "scan rnd maxw p s = (if p < maxw then scan rnd maxw (p + 1) (candidate rnd p s) else s)"
  by pat_completeness auto
termination
proof (relation "measure (\<lambda>(rnd, maxw, p, s). unat maxw - unat p)")
  show "wf (measure (\<lambda>(rnd, maxw, p, s). unat maxw - unat p))"
    by simp
next
  fix rnd :: rand_source and maxw p :: uint and s :: state
  assume lt: "p < maxw"
  then have "unat p < unat maxw"
    by (simp add: word_less_nat_alt)
  moreover have "unat maxw < 2 ^ 32"
    using unsigned_less [of maxw, where 'a = nat] by simp
  ultimately have "unat p + 1 < 2 ^ 32"
    by simp
  then have "unat (p + 1) = unat p + 1"
    by (simp add: unat_word_ariths)
  with \<open>unat p < unat maxw\<close> show "((rnd, maxw, p + 1, candidate rnd p s), (rnd, maxw, p, s))
      \<in> measure (\<lambda>(rnd, maxw, p, s). unat maxw - unat p)"
    by simp
qed

declare scan.simps [simp del]

text \<open>
  Lines 57-69 and 73: \<^verbatim>\<open>main\<close> with the value of \<^verbatim>\<open>max\<close> as a parameter; the program
  runs \<open>scan_range rnd 1000\<close>.
\<close>

definition init_state :: state where
  "init_state = \<lparr>mpz_a = mpz_init, mpz_e = mpz_init, mpz_r1 = mpz_init,
                 rand_calls = 0, stdout = []\<rparr>"

definition scan_range :: "rand_source \<Rightarrow> int \<Rightarrow> state" where
  "scan_range rnd max_int = scan rnd (word_of_int max_int) 3 init_state"

definition main :: "rand_source \<Rightarrow> state" where
  "main rnd = scan_range rnd 1000"

section \<open>Notions used to state the properties\<close>

text \<open>
  The value that lines 108-126 leave in \<^verbatim>\<open>cmp1\<close> for candidate \<open>p\<close> and witness \<open>w\<close>,
  read off a run of the check from the state in which \<^verbatim>\<open>main\<close> starts. Lemma
  \<open>fst_congruence_check\<close> below shows that every other state gives the same value.
\<close>

definition cmp1_of :: "uint \<Rightarrow> uint \<Rightarrow> uint" where
  "cmp1_of p w = fst (congruence_check p w init_state)"

text \<open>
  The witness that trial \<open>k\<close> of a candidate draws, when \<open>c\<close> calls of \<^verbatim>\<open>rand\<close> were made
  before the candidate's first trial.
\<close>

definition witness_at :: "rand_source \<Rightarrow> uint \<Rightarrow> nat \<Rightarrow> nat \<Rightarrow> uint" where
  "witness_at rnd p c k = sample p (rnd (c + k))"

text \<open>The number of complete lines in a text.\<close>

definition count_lines :: "string \<Rightarrow> nat" where
  "count_lines txt = length (filter (\<lambda>ch. ch = CHR 0x0A) txt)"

subsection \<open>The program with fresh big-number variables for every trial\<close>

text \<open>
  Section 5 of the specification asks that reusing the storage of the accumulators be
  indistinguishable from allocating them anew for each trial. The following variant of the
  program does the latter: before each trial, \<^verbatim>\<open>a\<close>, \<^verbatim>\<open>e\<close> and \<^verbatim>\<open>r1\<close> are what \<^verbatim>\<open>mpz_init\<close>
  makes them. Everything else is the program's own text.
\<close>

definition fresh :: "state \<Rightarrow> state" where
  "fresh s = s\<lparr>mpz_a := mpz_init, mpz_e := mpz_init, mpz_r1 := mpz_init\<rparr>"

definition trial_body_fresh :: "rand_source \<Rightarrow> uint \<Rightarrow> locals \<times> state \<Rightarrow> locals \<times> state" where
  "trial_body_fresh rnd p ls = (let (l, s) = ls in trial_body rnd p (l, fresh s))"

function trial_loop_fresh :: "rand_source \<Rightarrow> uint \<Rightarrow> locals \<times> state \<Rightarrow> locals \<times> state" where
  "trial_loop_fresh rnd p (l, s) =
     (if trial l < 20 \<and> composite_witness l = 0
      then trial_loop_fresh rnd p (trial_body_fresh rnd p (l, s))
      else (l, s))"
  by pat_completeness auto
termination
proof (relation "measure (\<lambda>(rnd, p, l, s). nat (20 - trial l))")
  show "wf (measure (\<lambda>(rnd, p, l, s). nat (20 - trial l)))"
    by simp
next
  fix rnd :: rand_source and p :: uint and l :: locals and s :: state
  assume "trial l < 20 \<and> composite_witness l = 0"
  moreover have "trial (fst (trial_body_fresh rnd p (l, s))) = trial l + 1"
    by (simp add: trial_body_fresh_def trial_body_def Let_def split: prod.split)
  ultimately show "((rnd, p, trial_body_fresh rnd p (l, s)), (rnd, p, l, s))
      \<in> measure (\<lambda>(rnd, p, l, s). nat (20 - trial l))"
    by (cases "trial_body_fresh rnd p (l, s)") simp
qed

declare trial_loop_fresh.simps [simp del]

definition candidate_fresh :: "rand_source \<Rightarrow> uint \<Rightarrow> state \<Rightarrow> state" where
  "candidate_fresh rnd p s =
     (let (l, s') = trial_loop_fresh rnd p (init_locals, s) in report p l s')"

function scan_fresh :: "rand_source \<Rightarrow> uint \<Rightarrow> uint \<Rightarrow> state \<Rightarrow> state" where
  "scan_fresh rnd maxw p s =
     (if p < maxw then scan_fresh rnd maxw (p + 1) (candidate_fresh rnd p s) else s)"
  by pat_completeness auto
termination
proof (relation "measure (\<lambda>(rnd, maxw, p, s). unat maxw - unat p)")
  show "wf (measure (\<lambda>(rnd, maxw, p, s). unat maxw - unat p))"
    by simp
next
  fix rnd :: rand_source and maxw p :: uint and s :: state
  assume lt: "p < maxw"
  then have "unat p < unat maxw"
    by (simp add: word_less_nat_alt)
  moreover have "unat maxw < 2 ^ 32"
    using unsigned_less [of maxw, where 'a = nat] by simp
  ultimately have "unat p + 1 < 2 ^ 32"
    by simp
  then have "unat (p + 1) = unat p + 1"
    by (simp add: unat_word_ariths)
  with \<open>unat p < unat maxw\<close>
  show "((rnd, maxw, p + 1, candidate_fresh rnd p s), (rnd, maxw, p, s))
      \<in> measure (\<lambda>(rnd, maxw, p, s). unat maxw - unat p)"
    by simp
qed

declare scan_fresh.simps [simp del]

subsection \<open>The outcome of a candidate\<close>

text \<open>
  The specification's \<open>TestOutcome\<close> (section 3). The program has no such value: it keeps
  \<^verbatim>\<open>composite_witness\<close> and \<^verbatim>\<open>fermat_liar\<close>, with 0 for "none". \<open>outcome_of\<close> reads the outcome
  off the two variables by the tests of lines 150 and 158.
\<close>

datatype test_outcome = ProbablePrime | Composite nat "nat option"

definition outcome_of :: "locals \<Rightarrow> test_outcome" where
  "outcome_of l =
     (if composite_witness l = 0 then ProbablePrime
      else Composite (nat (composite_witness l))
             (if 0 < fermat_liar l then Some (nat (fermat_liar l)) else None))"

text \<open>The output line formats of section 6 of the specification, without the line end.\<close>

fun spec_line :: "nat \<Rightarrow> test_outcome \<Rightarrow> string" where
  "spec_line p ProbablePrime = show_nat p @ '' is a probable prime''"
| "spec_line p (Composite w None) =
     show_nat p @ '' is composite - '' @ show_nat w @ '' is a composite witness''"
| "spec_line p (Composite w (Some x)) =
     show_nat p @ '' is composite - '' @ show_nat w @ '' is a composite witness''
       @ '' - '' @ show_nat x @ '' is a fermat liar for '' @ show_nat p"

text \<open>
  The candidates of a list paired with their outcomes, when the candidates are run one after
  the other from state \<open>s\<close>: what the scan hands to the reporting code of lines 150-164.
\<close>

fun outcomes :: "rand_source \<Rightarrow> uint list \<Rightarrow> state \<Rightarrow> (uint \<times> test_outcome) list" where
  "outcomes rnd [] s = []"
| "outcomes rnd (p # ps) s =
     (p, outcome_of (fst (trial_loop rnd p (init_locals, s)))) # outcomes rnd ps (candidate rnd p s)"

section \<open>Facts about the sampled witness\<close>

lemma unat_sample:
  assumes "3 \<le> p"
  shows "unat (sample p r) = unat (word_of_int r :: uint) mod (unat p - 2) + 2"
proof -
  have p3: "3 \<le> unat p"
    using assms by (simp add: word_le_nat_alt)
  have pb: "unat p < 2 ^ 32"
    using unsigned_less [of p, where 'a = nat] by simp
  have sub: "unat (p - 2) = unat p - 2"
    using p3 by (simp add: unat_sub word_le_nat_alt)
  have md: "unat (word_of_int r mod (p - 2) :: uint) = unat (word_of_int r :: uint) mod (unat p - 2)"
    by (simp add: unat_mod sub)
  have "unat (word_of_int r :: uint) mod (unat p - 2) < unat p - 2"
    using p3 by simp
  then have "unat (word_of_int r mod (p - 2) :: uint) + unat (2 :: uint) < 2 ^ 32"
    using pb md by simp
  then have "unat (word_of_int r mod (p - 2) + 2 :: uint)
      = unat (word_of_int r mod (p - 2) :: uint) + unat (2 :: uint)"
    by (simp add: unat_word_ariths)
  then show ?thesis
    using md by (simp add: sample_def)
qed

lemma sample_range:
  assumes "3 \<le> p"
  shows "2 \<le> unat (sample p r)" and "unat (sample p r) < unat p"
proof -
  have p3: "3 \<le> unat p"
    using assms by (simp add: word_le_nat_alt)
  show "2 \<le> unat (sample p r)"
    by (simp add: unat_sample [OF assms])
  have "unat (word_of_int r :: uint) mod (unat p - 2) < unat p - 2"
    using p3 by simp
  then show "unat (sample p r) < unat p"
    by (simp add: unat_sample [OF assms])
qed

lemma sample_nonzero: "3 \<le> p \<Longrightarrow> sample p r \<noteq> 0"
  using sample_range(1) [of p r] by (auto simp: unat_eq_0)

lemma sint_sample_nonzero: "3 \<le> p \<Longrightarrow> sint (sample p r) \<noteq> 0"
  using sample_nonzero [of p r] by (simp add: signed_eq_0_iff)

lemma sint_small:
  fixes w :: uint
  assumes "unat w < 2 ^ 31"
  shows "sint w = int (unat w)"
proof -
  have "int (unat w) < int (2 ^ 31)"
    using assms by (simp only: of_nat_less_iff)
  then have lt: "uint w < 2 ^ 31"
    by simp
  have "- (2 ^ 31) \<le> (0 :: int)"
    by simp
  also have "0 \<le> uint w"
    by simp
  finally have ge: "- (2 ^ 31) \<le> uint w" .
  have "signed_take_bit 31 (uint w) = uint w"
    using ge lt by (rule signed_take_bit_int_eq_self)
  moreover have "sint w = signed_take_bit 31 (uint w)"
    by (simp add: sint_uint)
  ultimately show ?thesis
    by simp
qed

lemma sint_sample:
  assumes "3 \<le> p" and "p \<le> 0x7FFFFFFF"
  shows "sint (sample p r) = int (unat (sample p r))"
proof -
  have "unat p \<le> 2147483647"
    using assms(2) by (simp add: word_le_nat_alt)
  with sample_range(2) [OF assms(1), of r] have "unat (sample p r) < 2 ^ 31"
    by simp
  then show ?thesis
    by (rule sint_small)
qed

lemma sample_word_range:
  assumes "3 \<le> p"
  shows "2 \<le> sample p r" and "sample p r \<le> p - 1"
proof -
  have p3: "3 \<le> unat p"
    using assms by (simp add: word_le_nat_alt)
  show "2 \<le> sample p r"
    using sample_range(1) [OF assms, of r] by (simp add: word_le_nat_alt)
  have "unat (p - 1) = unat p - 1"
    using p3 by (simp add: unat_sub word_le_nat_alt)
  then show "sample p r \<le> p - 1"
    using sample_range(2) [OF assms, of r] by (simp add: word_le_nat_alt)
qed

lemma sample_3: "sample 3 r = 2"
  by (simp add: sample_def)

section \<open>Facts about one trial and the trial loop\<close>

lemma fst_congruence_check: "fst (congruence_check p w s) = cmp1_of p w"
  by (simp add: cmp1_of_def congruence_check_def Let_def)

lemma cmp1_of_iff: "cmp1_of p w = 0 \<longleftrightarrow> (uint w ^ unat p - uint w) mod uint p = 0"
  by (simp add: cmp1_of_def congruence_check_def Let_def mpz_set_ui_def mpz_pow_ui_def
      mpz_sub_def mpz_mod_ui_def mpz_cmp_ui_def)

lemma congruence_check_keeps:
  "rand_calls (snd (congruence_check p w s)) = rand_calls s"
  "stdout (snd (congruence_check p w s)) = stdout s"
  by (simp_all add: congruence_check_def Let_def)

lemma trial_body_locals:
  "fst (trial_body rnd p (l, s)) =
     (if cmp1_of p (sample p (rnd (rand_calls s))) \<noteq> 0
      then l\<lparr>a1 := sample p (rnd (rand_calls s)),
             composite_witness := sint (sample p (rnd (rand_calls s))),
             fermat_liar := sint (a1 l), trial := trial l + 1\<rparr>
      else l\<lparr>a1 := sample p (rnd (rand_calls s)), trial := trial l + 1\<rparr>)"
  by (simp add: trial_body_def rand_def Let_def case_prod_beta fst_congruence_check)

lemma trial_body_state:
  "rand_calls (snd (trial_body rnd p (l, s))) = Suc (rand_calls s)"
  "stdout (snd (trial_body rnd p (l, s))) = stdout s"
  by (simp_all add: trial_body_def rand_def Let_def case_prod_beta congruence_check_keeps)

lemma trial_loop_stop:
  "\<not> (trial l < 20 \<and> composite_witness l = 0) \<Longrightarrow> trial_loop rnd p (l, s) = (l, s)"
  by (auto simp: trial_loop.simps [of rnd p l s])

lemma trial_loop_step:
  "trial l < 20 \<Longrightarrow> composite_witness l = 0 \<Longrightarrow>
   trial_loop rnd p (l, s) = trial_loop rnd p (trial_body rnd p (l, s))"
  by (simp add: trial_loop.simps [of rnd p l s])

lemma witness_at_shift:
  "witness_at rnd p (Suc c) k = witness_at rnd p c (Suc k)"
  by (simp add: witness_at_def)

lemma witness_at_0: "sample p (rnd c) = witness_at rnd p c 0"
  by (simp add: witness_at_def)

lemma loop_first_failure:
  assumes "3 \<le> p"
    and "composite_witness l = 0"
    and "trial l + int N < 20"
    and "\<forall>k<N. cmp1_of p (witness_at rnd p (rand_calls s) k) = 0"
    and "cmp1_of p (witness_at rnd p (rand_calls s) N) \<noteq> 0"
  shows "trial (fst (trial_loop rnd p (l, s))) = trial l + int N + 1
    \<and> composite_witness (fst (trial_loop rnd p (l, s))) = sint (witness_at rnd p (rand_calls s) N)
    \<and> fermat_liar (fst (trial_loop rnd p (l, s)))
        = sint (if N = 0 then a1 l else witness_at rnd p (rand_calls s) (N - 1))
    \<and> a1 (fst (trial_loop rnd p (l, s))) = witness_at rnd p (rand_calls s) N
    \<and> rand_calls (snd (trial_loop rnd p (l, s))) = rand_calls s + N + 1
    \<and> stdout (snd (trial_loop rnd p (l, s))) = stdout s"
  using assms(2-)
proof (induction N arbitrary: l s)
  case 0
  obtain l' s' where body: "trial_body rnd p (l, s) = (l', s')"
    by (cases "trial_body rnd p (l, s)")
  have fails: "cmp1_of p (sample p (rnd (rand_calls s))) \<noteq> 0"
    using "0.prems"(4) by (simp add: witness_at_def)
  have l': "l' = l\<lparr>a1 := sample p (rnd (rand_calls s)),
             composite_witness := sint (sample p (rnd (rand_calls s))),
             fermat_liar := sint (a1 l), trial := trial l + 1\<rparr>"
    using trial_body_locals [of rnd p l s] fails body by simp
  have s': "rand_calls s' = Suc (rand_calls s)" "stdout s' = stdout s"
    using trial_body_state [of rnd p l s] body by simp_all
  have "composite_witness l' \<noteq> 0"
    using sint_sample_nonzero [OF assms(1)] by (simp add: l')
  then have "trial_loop rnd p (l', s') = (l', s')"
    by (simp add: trial_loop_stop)
  moreover have "trial_loop rnd p (l, s) = trial_loop rnd p (l', s')"
    using "0.prems"(1,2) body by (simp add: trial_loop_step)
  ultimately show ?case
    by (simp add: l' s' witness_at_def)
next
  case (Suc N)
  obtain l' s' where body: "trial_body rnd p (l, s) = (l', s')"
    by (cases "trial_body rnd p (l, s)")
  have "cmp1_of p (witness_at rnd p (rand_calls s) 0) = 0"
    using Suc.prems(3) by blast
  then have passes: "cmp1_of p (sample p (rnd (rand_calls s))) = 0"
    by (simp add: witness_at_def)
  have l': "l' = l\<lparr>a1 := sample p (rnd (rand_calls s)), trial := trial l + 1\<rparr>"
    using trial_body_locals [of rnd p l s] passes body by simp
  have s': "rand_calls s' = Suc (rand_calls s)" "stdout s' = stdout s"
    using trial_body_state [of rnd p l s] body by simp_all
  have step: "trial_loop rnd p (l, s) = trial_loop rnd p (l', s')"
    using Suc.prems(1,2) body by (simp add: trial_loop_step)
  have "composite_witness l' = 0"
    using Suc.prems(1) by (simp add: l')
  moreover have "trial l' + int N < 20"
    using Suc.prems(2) by (simp add: l')
  moreover have "\<forall>k<N. cmp1_of p (witness_at rnd p (rand_calls s') k) = 0"
    using Suc.prems(3) by (simp add: s' witness_at_shift)
  moreover have "cmp1_of p (witness_at rnd p (rand_calls s') N) \<noteq> 0"
    using Suc.prems(4) by (simp add: s' witness_at_shift)
  ultimately have IH: "trial (fst (trial_loop rnd p (l', s'))) = trial l' + int N + 1
    \<and> composite_witness (fst (trial_loop rnd p (l', s'))) = sint (witness_at rnd p (rand_calls s') N)
    \<and> fermat_liar (fst (trial_loop rnd p (l', s')))
        = sint (if N = 0 then a1 l' else witness_at rnd p (rand_calls s') (N - 1))
    \<and> a1 (fst (trial_loop rnd p (l', s'))) = witness_at rnd p (rand_calls s') N
    \<and> rand_calls (snd (trial_loop rnd p (l', s'))) = rand_calls s' + N + 1
    \<and> stdout (snd (trial_loop rnd p (l', s'))) = stdout s'"
    by (rule Suc.IH)
  have liar: "(if N = 0 then a1 l' else witness_at rnd p (rand_calls s') (N - 1))
      = witness_at rnd p (rand_calls s) N"
    by (cases N) (simp_all add: l' s' witness_at_shift witness_at_0)
  show ?case
    using IH liar by (simp add: step s' witness_at_shift l')
qed

lemma loop_all_pass:
  assumes "composite_witness l = 0"
    and "trial l + int n = 20"
    and "\<forall>k<n. cmp1_of p (witness_at rnd p (rand_calls s) k) = 0"
  shows "trial (fst (trial_loop rnd p (l, s))) = 20
    \<and> composite_witness (fst (trial_loop rnd p (l, s))) = 0
    \<and> fermat_liar (fst (trial_loop rnd p (l, s))) = fermat_liar l
    \<and> rand_calls (snd (trial_loop rnd p (l, s))) = rand_calls s + n
    \<and> stdout (snd (trial_loop rnd p (l, s))) = stdout s"
  using assms
proof (induction n arbitrary: l s)
  case 0
  then have "trial_loop rnd p (l, s) = (l, s)"
    by (simp add: trial_loop_stop)
  with 0 show ?case
    by simp
next
  case (Suc n)
  obtain l' s' where body: "trial_body rnd p (l, s) = (l', s')"
    by (cases "trial_body rnd p (l, s)")
  have "cmp1_of p (witness_at rnd p (rand_calls s) 0) = 0"
    using Suc.prems(3) by blast
  then have passes: "cmp1_of p (sample p (rnd (rand_calls s))) = 0"
    by (simp add: witness_at_def)
  have l': "l' = l\<lparr>a1 := sample p (rnd (rand_calls s)), trial := trial l + 1\<rparr>"
    using trial_body_locals [of rnd p l s] passes body by simp
  have s': "rand_calls s' = Suc (rand_calls s)" "stdout s' = stdout s"
    using trial_body_state [of rnd p l s] body by simp_all
  have step: "trial_loop rnd p (l, s) = trial_loop rnd p (l', s')"
    using Suc.prems(1,2) body by (simp add: trial_loop_step)
  have "composite_witness l' = 0"
    using Suc.prems(1) by (simp add: l')
  moreover have "trial l' + int n = 20"
    using Suc.prems(2) by (simp add: l')
  moreover have "\<forall>k<n. cmp1_of p (witness_at rnd p (rand_calls s') k) = 0"
    using Suc.prems(3) by (simp add: s' witness_at_shift)
  ultimately have "trial (fst (trial_loop rnd p (l', s'))) = 20
    \<and> composite_witness (fst (trial_loop rnd p (l', s'))) = 0
    \<and> fermat_liar (fst (trial_loop rnd p (l', s'))) = fermat_liar l'
    \<and> rand_calls (snd (trial_loop rnd p (l', s'))) = rand_calls s' + n
    \<and> stdout (snd (trial_loop rnd p (l', s'))) = stdout s'"
    by (rule Suc.IH)
  then show ?case
    by (simp add: step s' l')
qed


lemma show_int_nonneg: "0 \<le> i \<Longrightarrow> show_int i = show_nat (nat i)"
  by (simp add: show_int_def)

lemma sint_candidate:
  fixes p :: uint
  assumes "p \<le> 0x7FFFFFFF"
  shows "sint p = int (unat p)"
proof -
  have "unat p \<le> 2147483647"
    using assms by (simp add: word_le_nat_alt)
  then have "unat p < 2 ^ 31"
    by simp
  then show ?thesis
    by (rule sint_small)
qed

lemma show_candidate: "(p :: uint) \<le> 0x7FFFFFFF \<Longrightarrow> show_int (sint p) = show_nat (unat p)"
  by (simp add: sint_candidate show_int_nonneg)

lemma stdout_report:
  "stdout (report p l s) = stdout s @
     (if composite_witness l = 0 then show_int (sint p) @ '' is a probable prime\<newline>''
      else if 0 < fermat_liar l
        then show_int (sint p) @ '' is composite - '' @ show_int (composite_witness l)
          @ '' is a composite witness'' @ '' - '' @ show_int (fermat_liar l)
          @ '' is a fermat liar for '' @ show_int (sint p) @ ''\<newline>''
        else show_int (sint p) @ '' is composite - '' @ show_int (composite_witness l)
          @ '' is a composite witness'' @ ''\<newline>'')"
  by (simp add: report_def printf_def Let_def)

lemma stdout_report_outcome:
  assumes "p \<le> 0x7FFFFFFF" and "0 \<le> composite_witness l" and "0 \<le> fermat_liar l"
  shows "stdout (report p l s) = stdout s @ spec_line (unat p) (outcome_of l) @ ''\<newline>''"
  using assms by (simp add: stdout_report outcome_of_def show_candidate show_int_nonneg)

lemma stdout_candidate:
  "stdout (candidate rnd p s)
     = stdout (report p (fst (trial_loop rnd p (init_locals, s)))
                 (snd (trial_loop rnd p (init_locals, s))))"
  by (simp add: candidate_def case_prod_beta)

lemma first_failure_cases:
  fixes P :: "nat \<Rightarrow> bool"
  obtains (all_pass) "\<forall>k<n. P k"
  | (fails) N where "N < n" and "\<forall>k<N. P k" and "\<not> P N"
proof (cases "\<forall>k<n. P k")
  case True
  then show ?thesis by (rule all_pass)
next
  case False
  then have "\<exists>k. k < n \<and> \<not> P k"
    by blast
  then obtain N where N: "N < n \<and> \<not> P N" and least: "\<forall>m<N. \<not> (m < n \<and> \<not> P m)"
    using exists_least_iff [of "\<lambda>k. k < n \<and> \<not> P k"] by blast
  from N least have "\<forall>k<N. P k"
    by auto
  with N show ?thesis
    by (blast intro: fails)
qed

lemma init_locals_simps:
  "trial init_locals = 0" "composite_witness init_locals = 0"
  "fermat_liar init_locals = 0" "a1 init_locals = 0"
  by (simp_all add: init_locals_def)

lemma candidate_first_failure:
  assumes "3 \<le> p" and "N < 20"
    and "\<forall>k<N. cmp1_of p (witness_at rnd p (rand_calls s) k) = 0"
    and "cmp1_of p (witness_at rnd p (rand_calls s) N) \<noteq> 0"
  shows "trial (fst (trial_loop rnd p (init_locals, s))) = int N + 1"
    and "composite_witness (fst (trial_loop rnd p (init_locals, s)))
          = sint (witness_at rnd p (rand_calls s) N)"
    and "fermat_liar (fst (trial_loop rnd p (init_locals, s)))
          = (if N = 0 then 0 else sint (witness_at rnd p (rand_calls s) (N - 1)))"
    and "rand_calls (snd (trial_loop rnd p (init_locals, s))) = rand_calls s + N + 1"
    and "stdout (snd (trial_loop rnd p (init_locals, s))) = stdout s"
proof -
  have "trial init_locals + int N < 20"
    using assms(2) by (simp add: init_locals_simps)
  from loop_first_failure [OF assms(1) init_locals_simps(2) this assms(3) assms(4)]
  show "trial (fst (trial_loop rnd p (init_locals, s))) = int N + 1"
    and "composite_witness (fst (trial_loop rnd p (init_locals, s)))
          = sint (witness_at rnd p (rand_calls s) N)"
    and "fermat_liar (fst (trial_loop rnd p (init_locals, s)))
          = (if N = 0 then 0 else sint (witness_at rnd p (rand_calls s) (N - 1)))"
    and "rand_calls (snd (trial_loop rnd p (init_locals, s))) = rand_calls s + N + 1"
    and "stdout (snd (trial_loop rnd p (init_locals, s))) = stdout s"
    by (simp_all add: init_locals_simps)
qed

lemma candidate_all_pass:
  assumes "\<forall>k<20. cmp1_of p (witness_at rnd p (rand_calls s) k) = 0"
  shows "trial (fst (trial_loop rnd p (init_locals, s))) = 20"
    and "composite_witness (fst (trial_loop rnd p (init_locals, s))) = 0"
    and "fermat_liar (fst (trial_loop rnd p (init_locals, s))) = 0"
    and "rand_calls (snd (trial_loop rnd p (init_locals, s))) = rand_calls s + 20"
    and "stdout (snd (trial_loop rnd p (init_locals, s))) = stdout s"
proof -
  have "trial init_locals + int 20 = 20"
    by (simp add: init_locals_simps)
  from loop_all_pass [OF init_locals_simps(2) this assms]
  show "trial (fst (trial_loop rnd p (init_locals, s))) = 20"
    and "composite_witness (fst (trial_loop rnd p (init_locals, s))) = 0"
    and "fermat_liar (fst (trial_loop rnd p (init_locals, s))) = 0"
    and "rand_calls (snd (trial_loop rnd p (init_locals, s))) = rand_calls s + 20"
    and "stdout (snd (trial_loop rnd p (init_locals, s))) = stdout s"
    by (simp_all add: init_locals_simps)
qed

lemma witness_at_range:
  assumes "3 \<le> p"
  shows "2 \<le> unat (witness_at rnd p c k)" and "unat (witness_at rnd p c k) < unat p"
  using sample_range [OF assms] by (simp_all add: witness_at_def)

lemma sint_witness_at:
  assumes "3 \<le> p" and "p \<le> 0x7FFFFFFF"
  shows "sint (witness_at rnd p c k) = int (unat (witness_at rnd p c k))"
  using sint_sample [OF assms] by (simp add: witness_at_def)

lemma loop_vars_nonneg:
  assumes "3 \<le> p" and "p \<le> 0x7FFFFFFF"
  shows "0 \<le> composite_witness (fst (trial_loop rnd p (init_locals, s)))"
    and "0 \<le> fermat_liar (fst (trial_loop rnd p (init_locals, s)))"
proof -
  let ?P = "\<lambda>k. cmp1_of p (witness_at rnd p (rand_calls s) k) = 0"
  have "0 \<le> composite_witness (fst (trial_loop rnd p (init_locals, s)))
      \<and> 0 \<le> fermat_liar (fst (trial_loop rnd p (init_locals, s)))"
  proof (cases rule: first_failure_cases [of 20 ?P])
    case all_pass
    then show ?thesis
      by (simp add: candidate_all_pass)
  next
    case (fails N)
    then show ?thesis
      using candidate_first_failure [OF assms(1), of N rnd s]
      by (simp add: sint_witness_at [OF assms])
  qed
  then show "0 \<le> composite_witness (fst (trial_loop rnd p (init_locals, s)))"
    and "0 \<le> fermat_liar (fst (trial_loop rnd p (init_locals, s)))"
    by simp_all
qed

lemma congruence_check_vars:
  "mpz_a (snd (congruence_check p w s)) = uint w"
  "mpz_e (snd (congruence_check p w s)) = uint w ^ unat p - uint w"
  "mpz_r1 (snd (congruence_check p w s)) = (uint w ^ unat p - uint w) mod uint p"
  by (simp_all add: congruence_check_def Let_def mpz_set_ui_def mpz_pow_ui_def
      mpz_sub_def mpz_mod_ui_def)

lemma witness_at_pos: "3 \<le> p \<Longrightarrow> 0 < unat (witness_at rnd p c k)"
  using witness_at_range(1) [of p rnd c k] by simp

lemma failing_body_ends_loop:
  assumes "3 \<le> p" and "cmp1_of p (sample p (rnd (rand_calls s))) \<noteq> 0"
  shows "trial_loop rnd p (trial_body rnd p (l, s)) = trial_body rnd p (l, s)"
proof -
  obtain l' s' where body: "trial_body rnd p (l, s) = (l', s')"
    by (cases "trial_body rnd p (l, s)")
  have "composite_witness l' = sint (sample p (rnd (rand_calls s)))"
    using trial_body_locals [of rnd p l s] assms(2) body by simp
  then have "composite_witness l' \<noteq> 0"
    using sint_sample_nonzero [OF assms(1)] by simp
  then show ?thesis
    by (simp add: body trial_loop_stop)
qed

lemma loop_bounds:
  assumes "3 \<le> p"
  shows "trial (fst (trial_loop rnd p (init_locals, s))) \<le> 20"
    and "rand_calls (snd (trial_loop rnd p (init_locals, s))) \<le> rand_calls s + 20"
    and "rand_calls (snd (trial_loop rnd p (init_locals, s)))
          = rand_calls s + nat (trial (fst (trial_loop rnd p (init_locals, s))))"
proof -
  let ?P = "\<lambda>k. cmp1_of p (witness_at rnd p (rand_calls s) k) = 0"
  have "trial (fst (trial_loop rnd p (init_locals, s))) \<le> 20
      \<and> rand_calls (snd (trial_loop rnd p (init_locals, s))) \<le> rand_calls s + 20
      \<and> rand_calls (snd (trial_loop rnd p (init_locals, s)))
          = rand_calls s + nat (trial (fst (trial_loop rnd p (init_locals, s))))"
  proof (cases rule: first_failure_cases [of 20 ?P])
    case all_pass
    then show ?thesis
      by (simp add: candidate_all_pass)
  next
    case (fails N)
    then show ?thesis
      using candidate_first_failure(1,4) [OF assms, of N rnd s] by simp
  qed
  then show "trial (fst (trial_loop rnd p (init_locals, s))) \<le> 20"
    and "rand_calls (snd (trial_loop rnd p (init_locals, s))) \<le> rand_calls s + 20"
    and "rand_calls (snd (trial_loop rnd p (init_locals, s)))
          = rand_calls s + nat (trial (fst (trial_loop rnd p (init_locals, s))))"
    by simp_all
qed

section \<open>Facts about the output and the scan\<close>

lemma stdout_trial_loop: "stdout (snd (trial_loop rnd p ls)) = stdout (snd ls)"
proof (induction rnd p ls rule: trial_loop.induct)
  case (1 rnd p l s)
  show ?case
  proof (cases "trial l < 20 \<and> composite_witness l = 0")
    case True
    then have "trial_loop rnd p (l, s) = trial_loop rnd p (trial_body rnd p (l, s))"
      by (simp add: trial_loop_step)
    then show ?thesis
      using "1.IH" [OF True] by (simp add: trial_body_state)
  next
    case False
    then show ?thesis
      by (simp add: trial_loop_stop)
  qed
qed

lemma digit_char_not_newline: "d < 10 \<Longrightarrow> digit_char d \<noteq> CHR 0x0A"
proof -
  assume "d < 10"
  then have "d \<in> {0, 1, 2, 3, 4, 5, 6, 7, 8, 9}"
    by auto
  then show ?thesis
    by (auto simp: digit_char_def)
qed

lemma count_lines_show_nat: "count_lines (show_nat n) = 0"
proof (induction n rule: show_nat.induct)
  case (1 n)
  show ?case
  proof (cases "n < 10")
    case True
    then show ?thesis
      by (simp add: show_nat.simps [of n] count_lines_def digit_char_not_newline)
  next
    case False
    then have "count_lines (show_nat (n div 10)) = 0"
      by (rule "1.IH")
    moreover have "digit_char (n mod 10) \<noteq> CHR 0x0A"
      by (rule digit_char_not_newline) simp
    ultimately show ?thesis
      using False by (simp add: show_nat.simps [of n] count_lines_def)
  qed
qed

lemma count_lines_show_int: "count_lines (show_int i) = 0"
  using count_lines_show_nat [of "nat i"] count_lines_show_nat [of "nat (- i)"]
  by (simp add: show_int_def count_lines_def)

lemma count_lines_report: "count_lines (stdout (report p l s)) = count_lines (stdout s) + 1"
  using count_lines_show_int [of "sint p"] count_lines_show_int [of "composite_witness l"]
    count_lines_show_int [of "fermat_liar l"]
  by (simp add: stdout_report count_lines_def)

lemma count_lines_candidate:
  "count_lines (stdout (candidate rnd p s)) = count_lines (stdout s) + 1"
  by (simp add: stdout_candidate count_lines_report stdout_trial_loop)

lemma count_lines_fold:
  "count_lines (stdout (fold (candidate rnd) ps s)) = count_lines (stdout s) + length ps"
  by (induction ps arbitrary: s) (simp_all add: count_lines_candidate)

lemma scan_fold:
  "scan rnd maxw p s = fold (candidate rnd) (map word_of_nat [unat p..<unat maxw]) s"
proof (induction rnd maxw p s rule: scan.induct)
  case (1 rnd maxw p s)
  show ?case
  proof (cases "p < maxw")
    case True
    then have lt: "unat p < unat maxw"
      by (simp add: word_less_nat_alt)
    moreover have "unat maxw < 2 ^ 32"
      using unsigned_less [of maxw, where 'a = nat] by simp
    ultimately have "unat p + 1 < 2 ^ 32"
      by simp
    then have suc: "unat (p + 1) = Suc (unat p)"
      by (simp add: unat_word_ariths)
    have "scan rnd maxw p s = scan rnd maxw (p + 1) (candidate rnd p s)"
      using True by (simp add: scan.simps [of rnd maxw p s])
    also have "\<dots> = fold (candidate rnd) (map word_of_nat [unat (p + 1)..<unat maxw])
        (candidate rnd p s)"
      using True by (rule "1.IH")
    also have "\<dots> = fold (candidate rnd) (map word_of_nat [unat p..<unat maxw]) s"
      using lt by (simp add: suc upt_conv_Cons)
    finally show ?thesis .
  next
    case False
    then have "unat maxw \<le> unat p"
      by (simp add: word_less_nat_alt)
    with False show ?thesis
      by (simp add: scan.simps [of rnd maxw p s])
  qed
qed


lemma map_fst_outcomes: "map fst (outcomes rnd ps s) = ps"
  by (induction ps arbitrary: s) simp_all

lemma stdout_candidate_line:
  assumes "3 \<le> p" and "p \<le> 0x7FFFFFFF"
  shows "stdout (candidate rnd p s)
      = stdout s @ spec_line (unat p) (outcome_of (fst (trial_loop rnd p (init_locals, s))))
          @ ''\<newline>''"
proof -
  let ?l = "fst (trial_loop rnd p (init_locals, s))"
  have "0 \<le> composite_witness ?l" and "0 \<le> fermat_liar ?l"
    by (rule loop_vars_nonneg [OF assms])+
  then show ?thesis
    using stdout_report_outcome [OF assms(2), of ?l]
    by (simp add: stdout_candidate stdout_trial_loop)
qed

lemma stdout_fold_outcomes:
  assumes "\<forall>p\<in>set ps. 3 \<le> p \<and> p \<le> 0x7FFFFFFF"
  shows "stdout (fold (candidate rnd) ps s)
      = stdout s @ concat (map (\<lambda>(p, oc). spec_line (unat p) oc @ ''\<newline>'') (outcomes rnd ps s))"
  using assms
proof (induction ps arbitrary: s)
  case Nil
  show ?case
    by simp
next
  case (Cons p ps)
  have "stdout (fold (candidate rnd) ps (candidate rnd p s))
      = stdout (candidate rnd p s)
        @ concat (map (\<lambda>(p, oc). spec_line (unat p) oc @ ''\<newline>'')
            (outcomes rnd ps (candidate rnd p s)))"
    using Cons.prems by (intro Cons.IH) simp
  moreover have "stdout (candidate rnd p s)
      = stdout s @ spec_line (unat p) (outcome_of (fst (trial_loop rnd p (init_locals, s))))
          @ ''\<newline>''"
    using Cons.prems by (intro stdout_candidate_line) simp_all
  ultimately show ?case
    by simp
qed

lemma scanned_candidates_range:
  fixes maxw :: uint
  assumes "maxw \<le> 0x80000000"
  shows "\<forall>p\<in>set (map word_of_nat [3..<unat maxw]). 3 \<le> (p :: uint) \<and> p \<le> 0x7FFFFFFF"
proof -
  have mx: "unat maxw \<le> 2147483648"
    using assms by (simp add: word_le_nat_alt)
  have "3 \<le> (word_of_nat k :: uint) \<and> (word_of_nat k :: uint) \<le> 0x7FFFFFFF"
    if k: "3 \<le> k" "k < unat maxw" for k
  proof -
    have "k < 2 ^ 32"
      using k(2) mx by simp
    then have "unat (word_of_nat k :: uint) = k"
      by (simp add: unat_of_nat)
    then show ?thesis
      using k mx by (simp add: word_le_nat_alt)
  qed
  then show ?thesis
    by auto
qed

lemma candidates_3_20: "map word_of_nat [3..<unat (20 :: uint)]
    = [3, 4, 5, 6, 7, 8, 9, 10, 11, 12, 13, 14, 15, 16, 17, 18, 19 :: uint]"
  by (simp add: upt_rec)

lemma main_fold:
  "main rnd = fold (candidate rnd) (map word_of_nat [3..<1000]) init_state"
  "count_lines (stdout (main rnd)) = 997"
proof -
  have u: "unat (1000 :: uint) = 1000" "unat (3 :: uint) = 3"
    by simp_all
  have "main rnd = scan rnd 1000 3 init_state"
    by (simp add: main_def scan_range_def)
  also have "\<dots> = fold (candidate rnd) (map word_of_nat [unat (3 :: uint)..<unat (1000 :: uint)])
      init_state"
    by (rule scan_fold)
  finally show eq: "main rnd = fold (candidate rnd) (map word_of_nat [3..<1000]) init_state"
    by (simp only: u)
  have "count_lines (stdout (main rnd)) = count_lines (stdout init_state) + (1000 - 3)"
    by (simp only: eq count_lines_fold length_map length_upt)
  then show "count_lines (stdout (main rnd)) = 997"
    by (simp add: init_state_def count_lines_def)
qed

lemma outcome_of_iff:
  "outcome_of l = ProbablePrime \<longleftrightarrow> composite_witness l = 0"
  "(\<exists>w x. outcome_of l = Composite w (Some x)) \<longleftrightarrow> composite_witness l \<noteq> 0 \<and> 0 < fermat_liar l"
  by (simp_all add: outcome_of_def)

section \<open>Facts about the big-number variables\<close>

lemma trial_body_overwrites:
  "trial_body rnd p (l, s\<lparr>mpz_a := x, mpz_e := y, mpz_r1 := z\<rparr>) = trial_body rnd p (l, s)"
  by (simp add: trial_body_def rand_def congruence_check_def Let_def)

lemma trial_body_fresh_eq: "trial_body_fresh rnd p (l, s) = trial_body rnd p (l, s)"
  by (simp add: trial_body_fresh_def fresh_def trial_body_overwrites)

lemma trial_loop_fresh_eq: "trial_loop_fresh rnd p ls = trial_loop rnd p ls"
proof (induction rnd p ls rule: trial_loop.induct)
  case (1 rnd p l s)
  show ?case
  proof (cases "trial l < 20 \<and> composite_witness l = 0")
    case True
    then have "trial_loop_fresh rnd p (l, s) = trial_loop_fresh rnd p (trial_body rnd p (l, s))"
      by (simp add: trial_loop_fresh.simps [of rnd p l s] trial_body_fresh_eq)
    also have "\<dots> = trial_loop rnd p (trial_body rnd p (l, s))"
      using True by (rule "1.IH")
    also have "\<dots> = trial_loop rnd p (l, s)"
      using True by (simp add: trial_loop_step)
    finally show ?thesis .
  next
    case False
    then show ?thesis
      by (auto simp: trial_loop_fresh.simps [of rnd p l s] trial_loop_stop)
  qed
qed

lemma candidate_fresh_eq: "candidate_fresh rnd p s = candidate rnd p s"
  by (simp add: candidate_fresh_def candidate_def trial_loop_fresh_eq)

lemma scan_fresh_eq: "scan_fresh rnd maxw q s = scan rnd maxw q s"
proof (induction rnd maxw q s rule: scan.induct)
  case (1 rnd maxw p s)
  show ?case
  proof (cases "p < maxw")
    case True
    then have "scan_fresh rnd maxw p s = scan_fresh rnd maxw (p + 1) (candidate rnd p s)"
      by (simp add: scan_fresh.simps [of rnd maxw p s] candidate_fresh_eq)
    also have "\<dots> = scan rnd maxw (p + 1) (candidate rnd p s)"
      using True by (rule "1.IH")
    also have "\<dots> = scan rnd maxw p s"
      using True by (simp add: scan.simps [of rnd maxw p s])
    finally show ?thesis .
  next
    case False
    then show ?thesis
      by (simp add: scan_fresh.simps [of rnd maxw p s] scan.simps [of rnd maxw p s])
  qed
qed

text \<open>The definitions that a run of the check on concrete numbers unfolds.\<close>

lemmas eval_check = cmp1_of_def congruence_check_def Let_def mpz_set_ui_def mpz_pow_ui_def
      mpz_sub_def mpz_mod_ui_def mpz_cmp_ui_def witness_at_def sample_def init_state_def

section \<open>The congruence check\<close>

text \<open>
  Claim C1. For a candidate \<open>p \<ge> 3\<close> and a witness \<open>w\<close> with \<open>2 \<le> w \<le> p - 1\<close>, the check of
  lines 108-130 finds \<^verbatim>\<open>cmp1 == 0\<close> (the congruence holds, \<open>w\<close> is not a composite witness)
  exactly when \<open>(w ^ p - w) mod p = 0\<close> over the unbounded integers. On the way \<^verbatim>\<open>e\<close> holds the
  exact difference \<open>w ^ p - w\<close> and \<^verbatim>\<open>r1\<close> its remainder modulo \<open>p\<close>.
\<close>

theorem congruence_check_correct:
  assumes "3 \<le> p" and "2 \<le> w" and "w \<le> p - 1"
  shows "(fst (congruence_check p w s) = 0) = ((uint w ^ unat p - uint w) mod uint p = 0)
    \<and> mpz_e (snd (congruence_check p w s)) = uint w ^ unat p - uint w
    \<and> mpz_r1 (snd (congruence_check p w s)) = (uint w ^ unat p - uint w) mod uint p"
  by (simp add: fst_congruence_check cmp1_of_iff congruence_check_vars)

theorem congruence_check_correct_witness:
  "(3 :: uint) \<le> 7 \<and> (2 :: uint) \<le> 3 \<and> (3 :: uint) \<le> 7 - 1
    \<and> fst (congruence_check 7 3 init_state) = 0
    \<and> mpz_e (snd (congruence_check 7 3 init_state)) = 2184
    \<and> mpz_r1 (snd (congruence_check 7 3 init_state)) = 0"
  using congruence_check_correct [of 7 3 init_state] by simp



section \<open>The sampled witness\<close>

text \<open>
  Claim C8. For every candidate \<open>p \<ge> 3\<close> and every value \<open>r\<close> that \<^verbatim>\<open>rand\<close> may return, the witness
  \<^verbatim>\<open>rand() % (p - 2) + 2\<close> of line 104 lies in \<open>[2, p - 1]\<close>, and it is the value that the trial
  stores in \<^verbatim>\<open>a1\<close> and hands to the check. For \<open>p = 3\<close> the witness is always 2; the trials run
  as for any other candidate and 3 comes out as a probable prime.
\<close>

theorem sample_in_range:
  assumes "3 \<le> p"
  shows "2 \<le> sample p r \<and> sample p r \<le> p - 1
    \<and> a1 (fst (trial_body rnd p (l, s))) = sample p (rnd (rand_calls s))
    \<and> (p = 3 \<longrightarrow> sample p r = 2
          \<and> outcome_of (fst (trial_loop rnd p (init_locals, s))) = ProbablePrime)"
proof -
  have "cmp1_of 3 2 = 0"
    by (simp add: cmp1_of_iff)
  then have "\<forall>k<20. cmp1_of 3 (witness_at rnd 3 (rand_calls s) k) = 0"
    by (simp add: witness_at_def sample_3)
  then have "outcome_of (fst (trial_loop rnd 3 (init_locals, s))) = ProbablePrime"
    by (simp add: outcome_of_def candidate_all_pass(2))
  moreover have "a1 (fst (trial_body rnd p (l, s))) = sample p (rnd (rand_calls s))"
    by (simp add: trial_body_locals)
  ultimately show ?thesis
    using sample_word_range [OF assms, of r] by (simp add: sample_3)
qed

theorem sample_in_range_witness:
  "(3 :: uint) \<le> 3 \<and> (2 :: uint) \<le> sample 3 12345 \<and> sample 3 12345 \<le> 3 - 1
    \<and> sample 3 12345 = 2
    \<and> outcome_of (fst (trial_loop (\<lambda>n. 12345) 3 (init_locals, init_state))) = ProbablePrime"
  using sample_in_range [of 3 12345 "\<lambda>n. 12345" init_locals init_state]
  by simp


section \<open>The trial loop\<close>

text \<open>
  In the statements below, \<open>witness_at rnd p (rand_calls s) k\<close> is the witness of trial \<open>k\<close> of a
  candidate whose loop starts in state \<open>s\<close>, and \<open>cmp1_of p w = 0\<close> says that the check passes
  for \<open>w\<close>. The bound \<open>p \<le> 0x7FFFFFFF\<close> holds for every candidate of the scan: \<^verbatim>\<open>p < max\<close> and
  \<^verbatim>\<open>max\<close> is an \<^verbatim>\<open>int\<close> (1000 in the program). Under it the conversions of lines 137 and 145
  keep the value of the witness.
\<close>

text \<open>
  Claim C2. When the first failing trial has index \<open>N > 0\<close>, the candidate is composite with
  the witness of trial \<open>N\<close>, and the fermat liar reported is the witness of trial \<open>N - 1\<close>, the
  one trial just before; no earlier witness is kept. With \<open>N = 1\<close>: trial 0 passes with \<open>a0\<close>,
  trial 1 fails with \<open>a1\<close>, and the outcome is composite with witness \<open>a1\<close> and liar \<open>a0\<close>.
\<close>

theorem liar_is_previous_witness:
  assumes "3 \<le> p" and "p \<le> 0x7FFFFFFF" and "0 < N" and "N < 20"
    and "\<forall>k<N. cmp1_of p (witness_at rnd p (rand_calls s) k) = 0"
    and "cmp1_of p (witness_at rnd p (rand_calls s) N) \<noteq> 0"
  shows "composite_witness (fst (trial_loop rnd p (init_locals, s)))
        = int (unat (witness_at rnd p (rand_calls s) N))
    \<and> fermat_liar (fst (trial_loop rnd p (init_locals, s)))
        = int (unat (witness_at rnd p (rand_calls s) (N - 1)))
    \<and> outcome_of (fst (trial_loop rnd p (init_locals, s)))
        = Composite (unat (witness_at rnd p (rand_calls s) N))
            (Some (unat (witness_at rnd p (rand_calls s) (N - 1))))"
proof -
  let ?l = "fst (trial_loop rnd p (init_locals, s))"
  have cw: "composite_witness ?l = int (unat (witness_at rnd p (rand_calls s) N))"
    using candidate_first_failure(2) [OF assms(1,4,5,6)]
    by (simp add: sint_witness_at [OF assms(1,2)])
  have fl: "fermat_liar ?l = int (unat (witness_at rnd p (rand_calls s) (N - 1)))"
    using candidate_first_failure(3) [OF assms(1,4,5,6)] assms(3)
    by (simp add: sint_witness_at [OF assms(1,2)])
  have "0 < int (unat (witness_at rnd p (rand_calls s) N))"
    and "0 < int (unat (witness_at rnd p (rand_calls s) (N - 1)))"
    using witness_at_pos [OF assms(1), of rnd "rand_calls s" N]
      witness_at_pos [OF assms(1), of rnd "rand_calls s" "N - 1"]
    by (simp_all only: of_nat_0_less_iff)
  then have "outcome_of ?l = Composite (unat (witness_at rnd p (rand_calls s) N))
            (Some (unat (witness_at rnd p (rand_calls s) (N - 1))))"
    by (simp add: outcome_of_def cw fl)
  with cw fl show ?thesis
    by simp
qed

theorem liar_is_previous_witness_witness:
  "(3 :: uint) \<le> 6 \<and> (6 :: uint) \<le> 0x7FFFFFFF \<and> (0 :: nat) < 1 \<and> (1 :: nat) < 20
    \<and> cmp1_of 6 (witness_at (\<lambda>n. if n = 0 then 1 else 0) 6 (rand_calls init_state) 0) = 0
    \<and> cmp1_of 6 (witness_at (\<lambda>n. if n = 0 then 1 else 0) 6 (rand_calls init_state) 1) \<noteq> 0
    \<and> witness_at (\<lambda>n. if n = 0 then 1 else 0) 6 (rand_calls init_state) 0 = 3
    \<and> witness_at (\<lambda>n. if n = 0 then 1 else 0) 6 (rand_calls init_state) 1 = 2
    \<and> composite_witness (fst (trial_loop (\<lambda>n. if n = 0 then 1 else 0) 6 (init_locals, init_state))) = 2
    \<and> fermat_liar (fst (trial_loop (\<lambda>n. if n = 0 then 1 else 0) 6 (init_locals, init_state))) = 3
    \<and> outcome_of (fst (trial_loop (\<lambda>n. if n = 0 then 1 else 0) 6 (init_locals, init_state)))
        = Composite 2 (Some 3)"
  using liar_is_previous_witness [of 6 1 "\<lambda>n. if n = 0 then 1 else 0" init_state]
  by (simp add: eval_check)



text \<open>
  Claim C3. Once the check of a trial fails, the loop is over: run on the state that the
  failing trial leaves, whatever its trial counter, the loop returns that state unchanged,
  so no further witness is drawn and no further trial runs. For a candidate whose first
  failing trial has index \<open>N\<close>, exactly \<open>N + 1\<close> trials run and \<^verbatim>\<open>rand\<close> is called \<open>N + 1\<close> times.
\<close>

theorem failing_trial_ends_loop:
  assumes "3 \<le> p"
  shows "(cmp1_of p (sample p (rnd (rand_calls s0))) \<noteq> 0 \<longrightarrow>
            trial_loop rnd p (trial_body rnd p (l0, s0)) = trial_body rnd p (l0, s0))
    \<and> (N < 20 \<and> (\<forall>k<N. cmp1_of p (witness_at rnd p (rand_calls s) k) = 0)
          \<and> cmp1_of p (witness_at rnd p (rand_calls s) N) \<noteq> 0 \<longrightarrow>
            trial (fst (trial_loop rnd p (init_locals, s))) = int N + 1
          \<and> rand_calls (snd (trial_loop rnd p (init_locals, s))) = rand_calls s + N + 1)"
  using failing_body_ends_loop [OF assms, of rnd s0 l0]
    candidate_first_failure(1,4) [OF assms, of N rnd s]
  by blast

theorem failing_trial_ends_loop_witness:
  "(3 :: uint) \<le> 6
    \<and> cmp1_of 6 (sample 6 ((\<lambda>n. if n = 0 then 1 else 0) (rand_calls (init_state\<lparr>rand_calls := 5\<rparr>)))) \<noteq> 0
    \<and> trial_loop (\<lambda>n. if n = 0 then 1 else 0) 6
          (trial_body (\<lambda>n. if n = 0 then 1 else 0) 6
             (init_locals\<lparr>trial := 5\<rparr>, init_state\<lparr>rand_calls := 5\<rparr>))
        = trial_body (\<lambda>n. if n = 0 then 1 else 0) 6
             (init_locals\<lparr>trial := 5\<rparr>, init_state\<lparr>rand_calls := 5\<rparr>)
    \<and> (1 :: nat) < 20
    \<and> cmp1_of 6 (witness_at (\<lambda>n. if n = 0 then 1 else 0) 6 (rand_calls init_state) 0) = 0
    \<and> cmp1_of 6 (witness_at (\<lambda>n. if n = 0 then 1 else 0) 6 (rand_calls init_state) 1) \<noteq> 0
    \<and> trial (fst (trial_loop (\<lambda>n. if n = 0 then 1 else 0) 6 (init_locals, init_state))) = 2
    \<and> rand_calls (snd (trial_loop (\<lambda>n. if n = 0 then 1 else 0) 6 (init_locals, init_state))) = 2"
  using failing_trial_ends_loop [of 6 "\<lambda>n. if n = 0 then 1 else 0" "init_state\<lparr>rand_calls := 5\<rparr>"
      "init_locals\<lparr>trial := 5\<rparr>" 1 init_state]
  by (simp add: eval_check)


text \<open>
  Claim C4. The trial budget is the constant 20: no candidate gets more than 20 trials, and
  a candidate whose 20 trials all pass gets exactly 20 and is reported as a probable prime.
\<close>

theorem twenty_passes_probable_prime:
  assumes "3 \<le> p" and "p \<le> 0x7FFFFFFF"
  shows "trial (fst (trial_loop rnd p (init_locals, s))) \<le> 20
    \<and> rand_calls (snd (trial_loop rnd p (init_locals, s))) \<le> rand_calls s + 20
    \<and> ((\<forall>k<20. cmp1_of p (witness_at rnd p (rand_calls s) k) = 0) \<longrightarrow>
          trial (fst (trial_loop rnd p (init_locals, s))) = 20
        \<and> rand_calls (snd (trial_loop rnd p (init_locals, s))) = rand_calls s + 20
        \<and> outcome_of (fst (trial_loop rnd p (init_locals, s))) = ProbablePrime
        \<and> stdout (candidate rnd p s) = stdout s @ show_nat (unat p) @ '' is a probable prime\<newline>'')"
proof -
  have "trial (fst (trial_loop rnd p (init_locals, s))) = 20
        \<and> rand_calls (snd (trial_loop rnd p (init_locals, s))) = rand_calls s + 20
        \<and> outcome_of (fst (trial_loop rnd p (init_locals, s))) = ProbablePrime
        \<and> stdout (candidate rnd p s) = stdout s @ show_nat (unat p) @ '' is a probable prime\<newline>''"
    if pass: "\<forall>k<20. cmp1_of p (witness_at rnd p (rand_calls s) k) = 0"
    using candidate_all_pass [OF pass]
    by (simp add: outcome_of_def stdout_candidate stdout_report show_candidate [OF assms(2)])
  then show ?thesis
    using loop_bounds(1,2) [OF assms(1), of rnd s] by blast
qed

theorem twenty_passes_probable_prime_witness:
  "(3 :: uint) \<le> 7 \<and> (7 :: uint) \<le> 0x7FFFFFFF
    \<and> cmp1_of 7 (witness_at (\<lambda>n. 0) 7 (rand_calls init_state) 19) = 0
    \<and> trial (fst (trial_loop (\<lambda>n. 0) 7 (init_locals, init_state))) = 20
    \<and> rand_calls (snd (trial_loop (\<lambda>n. 0) 7 (init_locals, init_state))) = 20
    \<and> outcome_of (fst (trial_loop (\<lambda>n. 0) 7 (init_locals, init_state))) = ProbablePrime
    \<and> stdout (candidate (\<lambda>n. 0) 7 init_state) = ''7 is a probable prime\<newline>''"
  using twenty_passes_probable_prime [of 7 "\<lambda>n. 0" init_state]
  by (simp add: eval_check show_nat.simps digit_char_def)


text \<open>
  Claim C5. When trial 0 fails, the candidate is composite with the witness of trial 0 and
  no fermat liar: \<^verbatim>\<open>fermat_liar\<close> stays 0 and the line printed has no liar clause.
\<close>

theorem first_trial_failure_no_liar:
  assumes "3 \<le> p" and "p \<le> 0x7FFFFFFF"
    and "cmp1_of p (witness_at rnd p (rand_calls s) 0) \<noteq> 0"
  shows "composite_witness (fst (trial_loop rnd p (init_locals, s)))
        = int (unat (witness_at rnd p (rand_calls s) 0))
    \<and> fermat_liar (fst (trial_loop rnd p (init_locals, s))) = 0
    \<and> outcome_of (fst (trial_loop rnd p (init_locals, s)))
        = Composite (unat (witness_at rnd p (rand_calls s) 0)) None
    \<and> stdout (candidate rnd p s) = stdout s @ show_nat (unat p) @ '' is composite - ''
        @ show_nat (unat (witness_at rnd p (rand_calls s) 0)) @ '' is a composite witness\<newline>''"
proof -
  let ?l = "fst (trial_loop rnd p (init_locals, s))"
  have none: "\<forall>k<0. cmp1_of p (witness_at rnd p (rand_calls s) k) = 0"
    by simp
  have N: "(0 :: nat) < 20"
    by simp
  have cw: "composite_witness ?l = int (unat (witness_at rnd p (rand_calls s) 0))"
    using candidate_first_failure(2) [OF assms(1) N none assms(3)]
    by (simp add: sint_witness_at [OF assms(1,2)])
  have fl: "fermat_liar ?l = 0"
    using candidate_first_failure(3) [OF assms(1) N none assms(3)] by simp
  have out: "stdout (snd (trial_loop rnd p (init_locals, s))) = stdout s"
    using candidate_first_failure(5) [OF assms(1) N none assms(3)] .
  have pos: "0 < int (unat (witness_at rnd p (rand_calls s) 0))"
    using witness_at_pos [OF assms(1), of rnd "rand_calls s" 0]
    by (simp only: of_nat_0_less_iff)
  have oc: "outcome_of ?l = Composite (unat (witness_at rnd p (rand_calls s) 0)) None"
    using pos by (simp add: outcome_of_def cw fl)
  have "0 \<le> composite_witness ?l" and "0 \<le> fermat_liar ?l"
    using pos by (simp_all only: cw fl)
  then have "stdout (candidate rnd p s)
      = stdout s @ spec_line (unat p) (outcome_of ?l) @ ''\<newline>''"
    using stdout_report_outcome [OF assms(2), of ?l] out by (simp add: stdout_candidate)
  then show ?thesis
    using cw fl oc by simp
qed

theorem first_trial_failure_no_liar_witness:
  "(3 :: uint) \<le> 4 \<and> (4 :: uint) \<le> 0x7FFFFFFF
    \<and> cmp1_of 4 (witness_at (\<lambda>n. 0) 4 (rand_calls init_state) 0) \<noteq> 0
    \<and> composite_witness (fst (trial_loop (\<lambda>n. 0) 4 (init_locals, init_state))) = 2
    \<and> fermat_liar (fst (trial_loop (\<lambda>n. 0) 4 (init_locals, init_state))) = 0
    \<and> outcome_of (fst (trial_loop (\<lambda>n. 0) 4 (init_locals, init_state))) = Composite 2 None
    \<and> stdout (candidate (\<lambda>n. 0) 4 init_state) = ''4 is composite - 2 is a composite witness\<newline>''"
  using first_trial_failure_no_liar [of 4 "\<lambda>n. 0" init_state]
  by (simp add: eval_check show_nat.simps digit_char_def)



text \<open>
  Claim C10. The zero sentinels do not collide with witnesses, which are at least 2. After
  the loop, \<^verbatim>\<open>composite_witness == 0\<close> holds exactly when all 20 trials passed, and
  \<^verbatim>\<open>fermat_liar > 0\<close> holds exactly when some trial failed and the first failing trial has an
  index above 0. So the probable-prime branch of the report is taken exactly when all 20
  trials passed, and the liar clause is printed exactly when a trial passed before the
  failing one.
\<close>

theorem zero_sentinels:
  assumes "3 \<le> p" and "p \<le> 0x7FFFFFFF"
  shows "(composite_witness (fst (trial_loop rnd p (init_locals, s))) = 0
          \<longleftrightarrow> (\<forall>k<20. cmp1_of p (witness_at rnd p (rand_calls s) k) = 0))
    \<and> (0 < fermat_liar (fst (trial_loop rnd p (init_locals, s)))
          \<longleftrightarrow> (\<exists>N<20. 0 < N \<and> (\<forall>k<N. cmp1_of p (witness_at rnd p (rand_calls s) k) = 0)
                \<and> cmp1_of p (witness_at rnd p (rand_calls s) N) \<noteq> 0))
    \<and> (outcome_of (fst (trial_loop rnd p (init_locals, s))) = ProbablePrime
          \<longleftrightarrow> (\<forall>k<20. cmp1_of p (witness_at rnd p (rand_calls s) k) = 0))
    \<and> ((\<exists>w x. outcome_of (fst (trial_loop rnd p (init_locals, s))) = Composite w (Some x))
          \<longleftrightarrow> (\<exists>N<20. 0 < N \<and> (\<forall>k<N. cmp1_of p (witness_at rnd p (rand_calls s) k) = 0)
                \<and> cmp1_of p (witness_at rnd p (rand_calls s) N) \<noteq> 0))"
proof -
  let ?l = "fst (trial_loop rnd p (init_locals, s))"
  let ?P = "\<lambda>k. cmp1_of p (witness_at rnd p (rand_calls s) k) = 0"
  have vars: "(composite_witness ?l = 0 \<longleftrightarrow> (\<forall>k<20. ?P k))
    \<and> (0 < fermat_liar ?l \<longleftrightarrow> (\<exists>N<20. 0 < N \<and> (\<forall>k<N. ?P k) \<and> \<not> ?P N))"
  proof (cases rule: first_failure_cases [of 20 ?P])
    case all_pass
    have "composite_witness ?l = 0" and "fermat_liar ?l = 0"
      using candidate_all_pass(2,3) [OF all_pass] by simp_all
    moreover have "\<not> (\<exists>N<20. 0 < N \<and> (\<forall>k<N. ?P k) \<and> \<not> ?P N)"
      using all_pass by blast
    ultimately show ?thesis
      using all_pass by simp
  next
    case (fails N)
    have cw: "composite_witness ?l = int (unat (witness_at rnd p (rand_calls s) N))"
      using candidate_first_failure(2) [OF assms(1) fails]
      by (simp add: sint_witness_at [OF assms])
    have fl: "fermat_liar ?l
        = (if N = 0 then 0 else int (unat (witness_at rnd p (rand_calls s) (N - 1))))"
      using candidate_first_failure(3) [OF assms(1) fails]
      by (simp add: sint_witness_at [OF assms])
    have pos: "0 < int (unat (witness_at rnd p (rand_calls s) k))" for k
      using witness_at_pos [OF assms(1), of rnd "rand_calls s" k]
      by (simp only: of_nat_0_less_iff)
    have "composite_witness ?l \<noteq> 0"
      using pos [of N] by (simp only: cw)
    moreover have "\<not> (\<forall>k<20. ?P k)"
      using fails by blast
    moreover have "0 < fermat_liar ?l \<longleftrightarrow> 0 < N"
      using pos [of "N - 1"] by (simp only: fl split: if_split) simp
    moreover have "(\<exists>M<20. 0 < M \<and> (\<forall>k<M. ?P k) \<and> \<not> ?P M) \<longleftrightarrow> 0 < N"
    proof
      assume "\<exists>M<20. 0 < M \<and> (\<forall>k<M. ?P k) \<and> \<not> ?P M"
      then obtain M where M: "M < 20" "0 < M" "\<forall>k<M. ?P k" "\<not> ?P M"
        by blast
      have "M = N"
        using M(3,4) fails(2,3) by (meson linorder_neqE_nat)
      with M(2) show "0 < N"
        by simp
    next
      assume "0 < N"
      with fails show "\<exists>M<20. 0 < M \<and> (\<forall>k<M. ?P k) \<and> \<not> ?P M"
        by blast
    qed
    ultimately show ?thesis
      by simp
  qed
  then have "0 < fermat_liar ?l \<longrightarrow> composite_witness ?l \<noteq> 0"
    by blast
  then have "(\<exists>w x. outcome_of ?l = Composite w (Some x)) \<longleftrightarrow> 0 < fermat_liar ?l"
    by (auto simp: outcome_of_iff(2))
  then show ?thesis
    using vars by (simp only: outcome_of_iff(1))
qed

theorem zero_sentinels_witness:
  "(3 :: uint) \<le> 6 \<and> (6 :: uint) \<le> 0x7FFFFFFF
    \<and> composite_witness (fst (trial_loop (\<lambda>n. if n = 0 then 1 else 0) 6 (init_locals, init_state))) \<noteq> 0
    \<and> 0 < fermat_liar (fst (trial_loop (\<lambda>n. if n = 0 then 1 else 0) 6 (init_locals, init_state)))
    \<and> outcome_of (fst (trial_loop (\<lambda>n. if n = 0 then 1 else 0) 6 (init_locals, init_state)))
        \<noteq> ProbablePrime"
proof -
  let ?rnd = "\<lambda>n :: nat. if n = 0 then 1 else 0 :: int"
  have fail1: "cmp1_of 6 (witness_at ?rnd 6 (rand_calls init_state) 1) \<noteq> 0"
    by (simp add: eval_check)
  have pass0: "\<forall>k<1. cmp1_of 6 (witness_at ?rnd 6 (rand_calls init_state) k) = 0"
    by (simp add: eval_check)
  have a: "\<not> (\<forall>k<20. cmp1_of 6 (witness_at ?rnd 6 (rand_calls init_state) k) = 0)"
    using fail1 by (auto intro: exI [of _ 1])
  have b: "\<exists>N<20. 0 < N \<and> (\<forall>k<N. cmp1_of 6 (witness_at ?rnd 6 (rand_calls init_state) k) = 0)
      \<and> cmp1_of 6 (witness_at ?rnd 6 (rand_calls init_state) N) \<noteq> 0"
    using fail1 pass0 by (intro exI [of _ 1]) simp
  show ?thesis
    using zero_sentinels [of 6 ?rnd init_state] a b by simp
qed


section \<open>The line printed for a candidate\<close>

text \<open>
  Claim C7. The line printed for a candidate is the line that section 6 of the specification
  gives for the candidate's outcome, followed by the line end: "p is a probable prime",
  "p is composite - w is a composite witness", or the latter followed by
  " - x is a fermat liar for p".
\<close>

theorem output_line_format:
  assumes "3 \<le> p" and "p \<le> 0x7FFFFFFF"
  shows "(outcome_of (fst (trial_loop rnd p (init_locals, s))) = ProbablePrime \<longrightarrow>
            stdout (candidate rnd p s)
              = stdout s @ show_nat (unat p) @ '' is a probable prime'' @ ''\<newline>'')
    \<and> (outcome_of (fst (trial_loop rnd p (init_locals, s))) = Composite w None \<longrightarrow>
            stdout (candidate rnd p s)
              = stdout s @ show_nat (unat p) @ '' is composite - '' @ show_nat w
                  @ '' is a composite witness'' @ ''\<newline>'')
    \<and> (outcome_of (fst (trial_loop rnd p (init_locals, s))) = Composite w (Some x) \<longrightarrow>
            stdout (candidate rnd p s)
              = stdout s @ show_nat (unat p) @ '' is composite - '' @ show_nat w
                  @ '' is a composite witness - '' @ show_nat x @ '' is a fermat liar for ''
                  @ show_nat (unat p) @ ''\<newline>'')"
  using stdout_candidate_line [OF assms, of rnd s] by simp

theorem output_line_format_witness:
  "(3 :: uint) \<le> 7 \<and> (7 :: uint) \<le> 0x7FFFFFFF
    \<and> outcome_of (fst (trial_loop (\<lambda>n. 0) 7 (init_locals, init_state))) = ProbablePrime
    \<and> stdout (candidate (\<lambda>n. 0) 7 init_state) = ''7 is a probable prime\<newline>''
    \<and> (3 :: uint) \<le> 4 \<and> (4 :: uint) \<le> 0x7FFFFFFF
    \<and> outcome_of (fst (trial_loop (\<lambda>n. 0) 4 (init_locals, init_state))) = Composite 2 None
    \<and> stdout (candidate (\<lambda>n. 0) 4 init_state) = ''4 is composite - 2 is a composite witness\<newline>''
    \<and> (3 :: uint) \<le> 6 \<and> (6 :: uint) \<le> 0x7FFFFFFF
    \<and> outcome_of (fst (trial_loop (\<lambda>n. if n = 0 then 1 else 0) 6 (init_locals, init_state)))
      = Composite 2 (Some 3)
    \<and> stdout (candidate (\<lambda>n. if n = 0 then 1 else 0) 6 init_state)
      = ''6 is composite - 2 is a composite witness - 3 is a fermat liar for 6\<newline>''"
proof -
  let ?rnd = "\<lambda>n :: nat. if n = 0 then 1 else 0 :: int"
  have empty: "stdout init_state = []"
    by (simp add: init_state_def)
  have "\<forall>k<20. cmp1_of 7 (witness_at (\<lambda>n. 0) 7 (rand_calls init_state) k) = 0"
    by (simp add: eval_check)
  then have o7: "outcome_of (fst (trial_loop (\<lambda>n. 0) 7 (init_locals, init_state))) = ProbablePrime"
    by (simp add: outcome_of_def candidate_all_pass(2))
  have "composite_witness (fst (trial_loop (\<lambda>n. 0) 4 (init_locals, init_state))) = 2"
    and "fermat_liar (fst (trial_loop (\<lambda>n. 0) 4 (init_locals, init_state))) = 0"
    using candidate_first_failure(2,3) [of 4 0 "\<lambda>n. 0" init_state]
    by (simp_all add: eval_check)
  then have o4: "outcome_of (fst (trial_loop (\<lambda>n. 0) 4 (init_locals, init_state))) = Composite 2 None"
    by (simp add: outcome_of_def)
  have "composite_witness (fst (trial_loop ?rnd 6 (init_locals, init_state))) = 2"
    and "fermat_liar (fst (trial_loop ?rnd 6 (init_locals, init_state))) = 3"
    using candidate_first_failure(2,3) [of 6 1 ?rnd init_state]
    by (simp_all add: eval_check)
  then have o6: "outcome_of (fst (trial_loop ?rnd 6 (init_locals, init_state))) = Composite 2 (Some 3)"
    by (simp add: outcome_of_def)
  have l7: "stdout (candidate (\<lambda>n. 0) 7 init_state) = ''7 is a probable prime\<newline>''"
    using output_line_format [of 7 "\<lambda>n. 0" init_state] o7
    by (simp add: empty show_nat.simps digit_char_def)
  have l4: "stdout (candidate (\<lambda>n. 0) 4 init_state)
      = ''4 is composite - 2 is a composite witness\<newline>''"
    using output_line_format [of 4 "\<lambda>n. 0" init_state 2] o4
    by (simp add: empty show_nat.simps digit_char_def)
  have l6: "stdout (candidate ?rnd 6 init_state)
      = ''6 is composite - 2 is a composite witness - 3 is a fermat liar for 6\<newline>''"
    using output_line_format [of 6 ?rnd init_state 2 3] o6
    by (simp add: empty show_nat.simps digit_char_def)
  show ?thesis
    using o7 o4 o6 l7 l4 l6 by simp
qed

section \<open>The scan\<close>

text \<open>
  Claim C6. The scan runs the body of the \<^verbatim>\<open>for\<close> loop (the trial loop, then the report) on the
  candidates 3, 4, 5, ..., \<open>max - 1\<close>, in this order, each once and none skipped, and prints
  one line per candidate: the line of the candidate's outcome, in the order of the
  candidates. Scanning \<open>[3, 20)\<close> visits the 17 candidates 3, ..., 19 and prints 17 lines; the
  program itself, with \<^verbatim>\<open>max = 1000\<close>, visits 3, ..., 999 and prints 997 lines.
  (The text of the lines is given for \<open>max \<le> 2 ^ 31\<close>, which every \<^verbatim>\<open>int\<close> value of \<^verbatim>\<open>max\<close> that
  is not negative satisfies.)
\<close>

theorem scan_visits_every_candidate:
  "scan rnd maxw 3 s = fold (candidate rnd) (map word_of_nat [3..<unat maxw]) s
    \<and> map fst (outcomes rnd (map word_of_nat [3..<unat maxw]) s) = map word_of_nat [3..<unat maxw]
    \<and> count_lines (stdout (scan rnd maxw 3 s)) = count_lines (stdout s) + (unat maxw - 3)
    \<and> (maxw \<le> 0x80000000 \<longrightarrow>
          stdout (scan rnd maxw 3 s) = stdout s @ concat
            (map (\<lambda>(p, oc). spec_line (unat p) oc @ ''\<newline>'')
               (outcomes rnd (map word_of_nat [3..<unat maxw]) s)))
    \<and> scan_range rnd 20 = fold (candidate rnd)
          [3, 4, 5, 6, 7, 8, 9, 10, 11, 12, 13, 14, 15, 16, 17, 18, 19] init_state
    \<and> length (outcomes rnd [3, 4, 5, 6, 7, 8, 9, 10, 11, 12, 13, 14, 15, 16, 17, 18, 19] init_state)
          = 17
    \<and> stdout (scan_range rnd 20) = concat
          (map (\<lambda>(p, oc). spec_line (unat p) oc @ ''\<newline>'')
             (outcomes rnd [3, 4, 5, 6, 7, 8, 9, 10, 11, 12, 13, 14, 15, 16, 17, 18, 19] init_state))
    \<and> count_lines (stdout (scan_range rnd 20)) = 17
    \<and> main rnd = fold (candidate rnd) (map word_of_nat [3..<1000]) init_state
    \<and> count_lines (stdout (main rnd)) = 997"
proof -
  have fold: "scan rnd m 3 t = fold (candidate rnd) (map word_of_nat [3..<unat m]) t" for m t
    using scan_fold [of rnd m 3 t] by simp
  have lines: "count_lines (stdout (scan rnd m 3 t)) = count_lines (stdout t) + (unat m - 3)" for m t
    by (simp add: fold count_lines_fold)
  have out: "stdout (scan rnd m 3 t) = stdout t @ concat
            (map (\<lambda>(p, oc). spec_line (unat p) oc @ ''\<newline>'')
               (outcomes rnd (map word_of_nat [3..<unat m]) t))"
    if "m \<le> 0x80000000" for m t
    using stdout_fold_outcomes [OF scanned_candidates_range [OF that]] by (simp add: fold)
  have r20: "scan_range rnd 20 = scan rnd 20 3 init_state"
    by (simp add: scan_range_def)
  have "(20 :: uint) \<le> 0x80000000"
    by simp
  then have out20: "stdout (scan_range rnd 20) = concat
          (map (\<lambda>(p, oc). spec_line (unat p) oc @ ''\<newline>'')
             (outcomes rnd [3, 4, 5, 6, 7, 8, 9, 10, 11, 12, 13, 14, 15, 16, 17, 18, 19] init_state))"
    using out [of 20 init_state] by (simp only: r20 candidates_3_20) (simp add: init_state_def)
  have len: "length (outcomes rnd [3, 4, 5, 6, 7, 8, 9, 10, 11, 12, 13, 14, 15, 16, 17, 18, 19] init_state) = 17"
    using arg_cong [OF map_fst_outcomes [of rnd "[3, 4, 5, 6, 7, 8, 9, 10, 11, 12, 13, 14, 15, 16, 17, 18, 19]" init_state], of length]
    by simp
  have cnt20: "count_lines (stdout (scan_range rnd 20)) = 17"
    using lines [of 20 init_state] by (simp add: r20 init_state_def count_lines_def)
  have fold20: "scan_range rnd 20 = fold (candidate rnd)
          [3, 4, 5, 6, 7, 8, 9, 10, 11, 12, 13, 14, 15, 16, 17, 18, 19] init_state"
    using fold [of 20 init_state] by (simp only: r20 candidates_3_20)
  show ?thesis
    using fold [of maxw s] lines [of maxw s] out [of maxw s] out20 len cnt20 fold20
      main_fold [of rnd]
    by (simp only: map_fst_outcomes) blast
qed

theorem scan_visits_every_candidate_witness:
  "(20 :: uint) \<le> 0x80000000
    \<and> scan (\<lambda>n. 0) 20 3 init_state = fold (candidate (\<lambda>n. 0))
          [3, 4, 5, 6, 7, 8, 9, 10, 11, 12, 13, 14, 15, 16, 17, 18, 19] init_state
    \<and> count_lines (stdout (scan (\<lambda>n. 0) 20 3 init_state)) = 17
    \<and> stdout (scan (\<lambda>n. 0) 20 3 init_state) = concat
          (map (\<lambda>(p, oc). spec_line (unat p) oc @ ''\<newline>'')
             (outcomes (\<lambda>n. 0) [3, 4, 5, 6, 7, 8, 9, 10, 11, 12, 13, 14, 15, 16, 17, 18, 19] init_state))"
proof -
  have le: "(20 :: uint) \<le> 0x80000000"
    by simp
  have empty: "stdout init_state = []"
    by (simp add: init_state_def)
  note inst = scan_visits_every_candidate [of "\<lambda>n. 0" 20 init_state]
  have a: "scan (\<lambda>n. 0) 20 3 init_state = fold (candidate (\<lambda>n. 0))
          [3, 4, 5, 6, 7, 8, 9, 10, 11, 12, 13, 14, 15, 16, 17, 18, 19] init_state"
    using inst [THEN conjunct1] by (simp only: candidates_3_20)
  have b: "count_lines (stdout (scan (\<lambda>n. 0) 20 3 init_state)) = 17"
    using inst [THEN conjunct2, THEN conjunct2, THEN conjunct1]
    by (simp add: empty count_lines_def)
  have c: "stdout (scan (\<lambda>n. 0) 20 3 init_state) = concat
          (map (\<lambda>(p, oc). spec_line (unat p) oc @ ''\<newline>'')
             (outcomes (\<lambda>n. 0) [3, 4, 5, 6, 7, 8, 9, 10, 11, 12, 13, 14, 15, 16, 17, 18, 19] init_state))"
    using inst [THEN conjunct2, THEN conjunct2, THEN conjunct2, THEN conjunct1, THEN mp, OF le]
    by (simp only: candidates_3_20 empty append_Nil)
  show ?thesis
    using le a b c by (intro conjI)
qed


section \<open>Reuse of the big-number variables\<close>

text \<open>
  Claim C9. The result of the congruence check depends on the candidate and the witness
  only: it is the same from any two states, and the same when the check is repeated. A trial
  started with arbitrary values in \<^verbatim>\<open>a\<close>, \<^verbatim>\<open>e\<close> and \<^verbatim>\<open>r1\<close> ends in the same state as the trial
  started with the values left by earlier trials, since each of the three is written before
  it is read. Hence the program that gives every trial fresh big-number variables computes
  the same as the program that reuses them, for the trial loop and for the whole scan.
\<close>

theorem accumulator_reuse_unobservable:
  "fst (congruence_check p w s) = fst (congruence_check p w s')
    \<and> fst (congruence_check p w (snd (congruence_check p w s))) = fst (congruence_check p w s)
    \<and> trial_body rnd p (l, s\<lparr>mpz_a := x, mpz_e := y, mpz_r1 := z\<rparr>) = trial_body rnd p (l, s)
    \<and> trial_loop_fresh rnd p (l, s) = trial_loop rnd p (l, s)
    \<and> scan_fresh rnd maxw q s = scan rnd maxw q s"
  by (simp add: fst_congruence_check trial_body_overwrites trial_loop_fresh_eq scan_fresh_eq)

theorem accumulator_reuse_unobservable_witness:
  "fst (congruence_check 6 3 init_state) = fst (congruence_check 6 3 (init_state\<lparr>mpz_a := 5, mpz_e := 7, mpz_r1 := 9\<rparr>))
    \<and> trial_body (\<lambda>n. 1) 6 (init_locals, init_state\<lparr>mpz_a := 5, mpz_e := 7, mpz_r1 := 9\<rparr>)
        = trial_body (\<lambda>n. 1) 6 (init_locals, init_state)
    \<and> scan_fresh (\<lambda>n. 1) 20 3 init_state = scan (\<lambda>n. 1) 20 3 init_state"
  using accumulator_reuse_unobservable [where p = 6 and w = 3 and s = init_state
      and s' = "init_state\<lparr>mpz_a := 5, mpz_e := 7, mpz_r1 := 9\<rparr>"
      and rnd = "\<lambda>n. 1" and l = init_locals and x = 5 and y = 7 and z = 9
      and maxw = 20 and q = 3]
  by simp


end
